theory Spec2Isabelle
  imports Main "HOL-Library.Word" "HOL-Library.Multiset"
begin

section \<open>Instance saves and the reset scheduler (game/InstanceSaveMgr.h)\<close>

subsection \<open>Basic types\<close>

type_synonym uint8 = "8 word"
type_synonym uint16 = "16 word"
type_synonym uint32 = "32 word"

text \<open>\<^verbatim>\<open>time_t\<close> is a signed count of seconds.\<close>
type_synonym time_t = int

text \<open>\<^verbatim>\<open>Player*\<close> and \<^verbatim>\<open>Group*\<close> are compared by address only; a handle is the address.\<close>
type_synonym Player = nat
type_synonym Group = nat

text \<open>
  The \<^verbatim>\<open>Difficulty\<close> enumeration is declared in DBCEnums.h; the header only uses its
  values, and \<^verbatim>\<open>InstanceResetEvent\<close> keeps them in an 8-bit field. A value of the
  enumeration is represented by that 8-bit number.
\<close>
type_synonym Difficulty = "8 word"

definition DUNGEON_DIFFICULTY_NORMAL :: Difficulty where
  "DUNGEON_DIFFICULTY_NORMAL = 0"

subsection \<open>class InstanceSave\<close>

record InstanceSave =
  m_playerList :: "Player list"
  m_groupList :: "Group list"
  m_resetTime :: time_t
  m_instanceid :: uint32
  m_mapid :: uint32
  m_difficulty :: Difficulty
  m_canReset :: bool
  m_usedByMap :: bool

text \<open>
  \<^verbatim>\<open>uint8 GetPlayerCount() { return m_playerList.size(); }\<close>: the \<^verbatim>\<open>size_t\<close> result of
  \<^verbatim>\<open>size()\<close> is converted to \<^verbatim>\<open>uint8\<close> by the return.
\<close>
definition GetPlayerCount :: "InstanceSave \<Rightarrow> uint8" where
  "GetPlayerCount s = of_nat (length (m_playerList s))"

definition GetGroupCount :: "InstanceSave \<Rightarrow> uint8" where
  "GetGroupCount s = of_nat (length (m_groupList s))"

definition GetInstanceId :: "InstanceSave \<Rightarrow> uint32" where
  "GetInstanceId s = m_instanceid s"

definition GetMapId :: "InstanceSave \<Rightarrow> uint32" where
  "GetMapId s = m_mapid s"

definition GetResetTime :: "InstanceSave \<Rightarrow> time_t" where
  "GetResetTime s = m_resetTime s"

definition SetResetTime :: "time_t \<Rightarrow> InstanceSave \<Rightarrow> InstanceSave" where
  "SetResetTime resetTime s = s\<lparr>m_resetTime := resetTime\<rparr>"

definition CanReset :: "InstanceSave \<Rightarrow> bool" where
  "CanReset s = m_canReset s"

definition SetCanReset :: "bool \<Rightarrow> InstanceSave \<Rightarrow> InstanceSave" where
  "SetCanReset canReset s = s\<lparr>m_canReset := canReset\<rparr>"

definition GetDifficulty :: "InstanceSave \<Rightarrow> Difficulty" where
  "GetDifficulty s = m_difficulty s"

text \<open>
  Modelled from the spec: the constructor \<^verbatim>\<open>InstanceSave::InstanceSave\<close>, of which the header
  has the signature only (its first parameter is a \<^verbatim>\<open>uint16\<close>). The identity fields, the
  reset time and the resettability flag come from the arguments, nothing is bound yet and
  the map is not loaded.
\<close>
definition InstanceSave_new ::
  "uint16 \<Rightarrow> uint32 \<Rightarrow> Difficulty \<Rightarrow> time_t \<Rightarrow> bool \<Rightarrow> InstanceSave" where
  "InstanceSave_new MapId InstanceId difficulty resetTime canReset =
     \<lparr>m_playerList = [], m_groupList = [], m_resetTime = resetTime,
      m_instanceid = InstanceId, m_mapid = ucast MapId, m_difficulty = difficulty,
      m_canReset = canReset, m_usedByMap = False\<rparr>"

text \<open>
  A call that runs the emptiness check leaves the object either alive or unloaded; the
  fields an unloaded object had at that moment are kept for reference.
\<close>
datatype lifecycle = Live InstanceSave | Unloaded InstanceSave

fun binding_of :: "lifecycle \<Rightarrow> InstanceSave" where
  "binding_of (Live s) = s"
| "binding_of (Unloaded s) = s"

fun is_unloaded :: "lifecycle \<Rightarrow> bool" where
  "is_unloaded (Live s) = False"
| "is_unloaded (Unloaded s) = True"

text \<open>
  Modelled from the spec: the body of \<^verbatim>\<open>InstanceSave::UnloadIfEmpty\<close>, which the header only
  declares. The binding is destroyed exactly when both reference lists are empty and the
  map is not loaded, and the check reports whether that happened.
\<close>
definition UnloadIfEmpty :: "InstanceSave \<Rightarrow> bool \<times> lifecycle" where
  "UnloadIfEmpty s =
     (if m_playerList s = [] \<and> m_groupList s = [] \<and> \<not> m_usedByMap s
      then (True, Unloaded s) else (False, Live s))"

text \<open>\<^verbatim>\<open>void AddPlayer(Player *player) { m_playerList.push_back(player); }\<close>\<close>
definition AddPlayer :: "Player \<Rightarrow> InstanceSave \<Rightarrow> InstanceSave" where
  "AddPlayer player s = s\<lparr>m_playerList := m_playerList s @ [player]\<rparr>"

text \<open>
  \<^verbatim>\<open>bool RemovePlayer(Player *player) { m_playerList.remove(player); return UnloadIfEmpty(); }\<close>
  where \<^verbatim>\<open>std::list::remove\<close> erases every element equal to its argument.
\<close>
definition RemovePlayer :: "Player \<Rightarrow> InstanceSave \<Rightarrow> bool \<times> lifecycle" where
  "RemovePlayer player s = UnloadIfEmpty (s\<lparr>m_playerList := removeAll player (m_playerList s)\<rparr>)"

definition AddGroup :: "Group \<Rightarrow> InstanceSave \<Rightarrow> InstanceSave" where
  "AddGroup grp s = s\<lparr>m_groupList := m_groupList s @ [grp]\<rparr>"

definition RemoveGroup :: "Group \<Rightarrow> InstanceSave \<Rightarrow> bool \<times> lifecycle" where
  "RemoveGroup grp s = UnloadIfEmpty (s\<lparr>m_groupList := removeAll grp (m_groupList s)\<rparr>)"

text \<open>
  \<^verbatim>\<open>void SetUsedByMapState(bool state) { m_usedByMap = state; if (!state) UnloadIfEmpty(); }\<close>
  The result of the check is dropped; its effect on the object stays.
\<close>
definition SetUsedByMapState :: "bool \<Rightarrow> InstanceSave \<Rightarrow> lifecycle" where
  "SetUsedByMapState state s =
     (let s' = s\<lparr>m_usedByMap := state\<rparr>
      in if \<not> state then snd (UnloadIfEmpty s') else Live s')"

text \<open>Sequences of calls made on one binding by its users.\<close>
datatype binding_call =
    CallAddPlayer Player
  | CallRemovePlayer Player
  | CallAddGroup Group
  | CallRemoveGroup Group
  | CallSetUsedByMapState bool

fun do_call :: "binding_call \<Rightarrow> InstanceSave \<Rightarrow> lifecycle" where
  "do_call (CallAddPlayer p) s = Live (AddPlayer p s)"
| "do_call (CallRemovePlayer p) s = snd (RemovePlayer p s)"
| "do_call (CallAddGroup g) s = Live (AddGroup g s)"
| "do_call (CallRemoveGroup g) s = snd (RemoveGroup g s)"
| "do_call (CallSetUsedByMapState b) s = SetUsedByMapState b s"

text \<open>
  A member call on an object that has been unloaded has no defined behaviour; the run
  stops there with an error.
\<close>
datatype run_error = CallOnUnloaded

fun run_calls :: "lifecycle \<Rightarrow> binding_call list \<Rightarrow> run_error + lifecycle" where
  "run_calls l [] = Inr l"
| "run_calls (Unloaded s) (c # cs) = Inl CallOnUnloaded"
| "run_calls (Live s) (c # cs) = run_calls (do_call c s) cs"

definition unreferenced :: "InstanceSave \<Rightarrow> bool" where
  "unreferenced s \<longleftrightarrow> m_playerList s = [] \<and> m_groupList s = [] \<and> \<not> m_usedByMap s"

subsection \<open>struct InstanceResetEvent\<close>

datatype ResetEventType =
    RESET_EVENT_DUNGEON
  | RESET_EVENT_INFORM_1
  | RESET_EVENT_INFORM_2
  | RESET_EVENT_INFORM_3
  | RESET_EVENT_INFORM_LAST

record InstanceResetEvent =
  type :: ResetEventType
  difficulty :: Difficulty
  mapid :: uint16
  instanceId :: uint32

text \<open>The default constructor.\<close>
definition InstanceResetEvent_default :: InstanceResetEvent where
  "InstanceResetEvent_default =
     \<lparr>type = RESET_EVENT_DUNGEON, difficulty = DUNGEON_DIFFICULTY_NORMAL, mapid = 0, instanceId = 0\<rparr>"

text \<open>
  \<^verbatim>\<open>InstanceResetEvent(ResetEventType t, uint32 _mapid, Difficulty d, uint32 _instanceid)\<close>
  stores the 32-bit map id in the 16-bit field.
\<close>
definition InstanceResetEvent_new ::
  "ResetEventType \<Rightarrow> uint32 \<Rightarrow> Difficulty \<Rightarrow> uint32 \<Rightarrow> InstanceResetEvent" where
  "InstanceResetEvent_new t mapid' d instanceid' =
     \<lparr>type = t, difficulty = d, mapid = ucast mapid', instanceId = instanceid'\<rparr>"

text \<open>
  \<^verbatim>\<open>bool operator == (const InstanceResetEvent& e)\<close>, with the receiver first and \<open>e\<close> second.
\<close>
definition event_eq :: "InstanceResetEvent \<Rightarrow> InstanceResetEvent \<Rightarrow> bool" where
  "event_eq this e \<longleftrightarrow>
     mapid e = mapid this \<and> difficulty e = difficulty this \<and> instanceId e = instanceId this"

subsection \<open>class InstanceResetScheduler\<close>

text \<open>
  \<^verbatim>\<open>std::multimap<time_t, InstanceResetEvent>\<close>: the entries in iteration order, which is
  ascending in the key. An insertion goes behind the entries whose key is not larger.
\<close>
type_synonym ResetTimeQueue = "(time_t \<times> InstanceResetEvent) list"

definition queue_ordered :: "ResetTimeQueue \<Rightarrow> bool" where
  "queue_ordered q \<longleftrightarrow> sorted (map fst q)"

fun queue_insert :: "time_t \<Rightarrow> InstanceResetEvent \<Rightarrow> ResetTimeQueue \<Rightarrow> ResetTimeQueue" where
  "queue_insert t e [] = [(t, e)]"
| "queue_insert t e ((k, x) # q) =
     (if k \<le> t then (k, x) # queue_insert t e q else (t, e) # (k, x) # q)"

text \<open>Erasing the first entry, in iteration order, whose event compares equal to \<open>e\<close>.\<close>
fun queue_erase_first :: "InstanceResetEvent \<Rightarrow> ResetTimeQueue \<Rightarrow> ResetTimeQueue" where
  "queue_erase_first e [] = []"
| "queue_erase_first e ((k, x) # q) =
     (if event_eq x e then q else (k, x) # queue_erase_first e q)"

text \<open>
  \<^verbatim>\<open>UNORDERED_MAP<uint32, time_t>\<close> keyed by \<^verbatim>\<open>MAKE_PAIR32(mapid, d)\<close>. The macro is defined
  outside this header, so the functions that use it take it as the parameter \<open>pair32\<close>.
\<close>
record InstanceResetScheduler =
  m_resetTimeByMapDifficulty :: "uint32 \<rightharpoonup> time_t"
  m_resetTimeQueue :: ResetTimeQueue

text \<open>
  \<^verbatim>\<open>GetResetTimeFor\<close> is a \<^verbatim>\<open>const\<close> member that looks the key up with \<^verbatim>\<open>find\<close>; the
  scheduler it leaves behind is returned with the result.
\<close>
definition GetResetTimeFor ::
  "(uint32 \<Rightarrow> Difficulty \<Rightarrow> uint32) \<Rightarrow> uint32 \<Rightarrow> Difficulty \<Rightarrow> InstanceResetScheduler
     \<Rightarrow> time_t \<times> InstanceResetScheduler" where
  "GetResetTimeFor pair32 map_id d s =
     (case m_resetTimeByMapDifficulty s (pair32 map_id d) of
        Some t \<Rightarrow> (t, s)
      | None \<Rightarrow> (0, s))"

text \<open>\<^verbatim>\<open>m_resetTimeByMapDifficulty[MAKE_PAIR32(mapid,d)] = t;\<close>\<close>
definition SetResetTimeFor ::
  "(uint32 \<Rightarrow> Difficulty \<Rightarrow> uint32) \<Rightarrow> uint32 \<Rightarrow> Difficulty \<Rightarrow> time_t
     \<Rightarrow> InstanceResetScheduler \<Rightarrow> InstanceResetScheduler" where
  "SetResetTimeFor pair32 map_id d t s =
     s\<lparr>m_resetTimeByMapDifficulty := (m_resetTimeByMapDifficulty s)(pair32 map_id d \<mapsto> t)\<rparr>"

text \<open>
  Modelled from the spec: the body of \<^verbatim>\<open>InstanceResetScheduler::ScheduleReset\<close>, which the
  header only declares. With \<open>add\<close> the event is inserted at key \<open>time\<close>; without it the
  first queue entry whose event compares equal is removed, whatever \<open>time\<close> is.
\<close>
definition ScheduleReset ::
  "bool \<Rightarrow> time_t \<Rightarrow> InstanceResetEvent \<Rightarrow> InstanceResetScheduler \<Rightarrow> InstanceResetScheduler" where
  "ScheduleReset add time event s =
     (if add then s\<lparr>m_resetTimeQueue := queue_insert time event (m_resetTimeQueue s)\<rparr>
      else s\<lparr>m_resetTimeQueue := queue_erase_first event (m_resetTimeQueue s)\<rparr>)"








subsection \<open>class InstanceSaveManager\<close>

text \<open>
  The saves are kept by instance id. \<open>saved_to_db\<close> is the log of the saves written to
  the database, in order.
\<close>
record InstanceSaveManager =
  lock_instLists :: bool
  m_instanceSaveById :: "uint32 \<rightharpoonup> InstanceSave"
  m_Scheduler :: InstanceResetScheduler
  saved_to_db :: "InstanceSave list"

text \<open>
  Modelled from the spec: the body of \<^verbatim>\<open>InstanceSaveManager::AddInstanceSave\<close>, which the
  header only declares. An existing save for the instance id is returned as it is. Otherwise
  a new save is built and inserted, and unless it is being loaded from storage it is written
  to the database and, for a dungeon, its own reset event is scheduled. Whether a map and
  difficulty make a dungeon is in the content templates: the parameter \<open>is_dungeon\<close>.
\<close>
definition AddInstanceSave ::
  "(uint32 \<Rightarrow> Difficulty \<Rightarrow> bool) \<Rightarrow> uint32 \<Rightarrow> uint32 \<Rightarrow> Difficulty \<Rightarrow> time_t \<Rightarrow> bool \<Rightarrow> bool
     \<Rightarrow> InstanceSaveManager \<Rightarrow> InstanceSave \<times> InstanceSaveManager" where
  "AddInstanceSave is_dungeon mapId instId diff resetTime canReset load mgr =
     (case m_instanceSaveById mgr instId of
        Some save \<Rightarrow> (save, mgr)
      | None \<Rightarrow>
          (let save = InstanceSave_new (ucast mapId) instId diff resetTime canReset;
               mgr1 = mgr\<lparr>m_instanceSaveById := (m_instanceSaveById mgr)(instId \<mapsto> save)\<rparr>
           in if load then (save, mgr1)
              else (save,
                    mgr1\<lparr>saved_to_db := saved_to_db mgr1 @ [save],
                         m_Scheduler :=
                           (if is_dungeon mapId diff
                            then ScheduleReset True resetTime
                                   (InstanceResetEvent_new RESET_EVENT_DUNGEON mapId diff instId)
                                   (m_Scheduler mgr1)
                            else m_Scheduler mgr1)\<rparr>)))"

subsection \<open>Example states\<close>

text \<open>A save as \<^verbatim>\<open>AddInstanceSave\<close> builds it: nothing bound and the map not loaded.\<close>
definition fresh_save :: InstanceSave where
  "fresh_save = InstanceSave_new 249 7 DUNGEON_DIFFICULTY_NORMAL 0 True"

text \<open>A save with more than 255 players and groups in its lists.\<close>
definition crowded_save :: InstanceSave where
  "crowded_save = fresh_save\<lparr>m_playerList := replicate 256 1, m_groupList := replicate 300 2\<rparr>"

text \<open>One way to pack a map id and a difficulty into 32 bits, for the examples.\<close>
definition example_pair32 :: "uint32 \<Rightarrow> Difficulty \<Rightarrow> uint32" where
  "example_pair32 l h = or (ucast (ucast l :: uint16)) (push_bit 16 (ucast h))"

definition ev_dungeon :: InstanceResetEvent where
  "ev_dungeon = InstanceResetEvent_new RESET_EVENT_DUNGEON 249 0 7"

definition ev_final :: InstanceResetEvent where
  "ev_final = InstanceResetEvent_new RESET_EVENT_INFORM_LAST 531 2 0"

definition ev_warn :: InstanceResetEvent where
  "ev_warn = InstanceResetEvent_new RESET_EVENT_INFORM_1 531 2 0"

text \<open>A scheduler with one cohort, a dungeon reset at 400 and the cohort's reset at 1000.\<close>
definition sched0 :: InstanceResetScheduler where
  "sched0 = \<lparr>m_resetTimeByMapDifficulty = [example_pair32 531 2 \<mapsto> 1000],
             m_resetTimeQueue = [(400, ev_dungeon), (1000, ev_final)]\<rparr>"





definition mgr0 :: InstanceSaveManager where
  "mgr0 = \<lparr>lock_instLists = False, m_instanceSaveById = Map.empty,
           m_Scheduler = sched0, saved_to_db = []\<rparr>"

definition dungeon_249 :: "uint32 \<Rightarrow> Difficulty \<Rightarrow> bool" where
  "dungeon_249 m d \<longleftrightarrow> m = 249"

subsection \<open>Notions used in the proofs\<close>



section \<open>Properties\<close>

subsection \<open>InstanceSave: references and unloading\<close>

lemma do_call_unloaded_iff:
  "is_unloaded (do_call c s) \<longleftrightarrow> unreferenced (binding_of (do_call c s))"
  by (cases c)
    (simp_all add: unreferenced_def AddPlayer_def AddGroup_def RemovePlayer_def RemoveGroup_def
      SetUsedByMapState_def UnloadIfEmpty_def Let_def)

lemma run_calls_unloaded_iff:
  "run_calls (Live s) cs = Inr l \<Longrightarrow> cs \<noteq> [] \<Longrightarrow>
     (is_unloaded l \<longleftrightarrow> unreferenced (binding_of l))"
proof (induction cs arbitrary: s)
  case Nil
  then show ?case by simp
next
  case (Cons c cs)
  show ?case
  proof (cases cs)
    case Nil
    with Cons.prems have "l = do_call c s" by simp
    then show ?thesis by (simp add: do_call_unloaded_iff)
  next
    case (Cons c' cs')
    show ?thesis
    proof (cases "do_call c s")
      case (Live s')
      with Cons.prems(1) have "run_calls (Live s') cs = Inr l" by simp
      moreover from Cons have "cs \<noteq> []" by simp
      ultimately show ?thesis by (rule Cons.IH)
    next
      case (Unloaded s')
      with Cons.prems(1) Cons show ?thesis by simp
    qed
  qed
qed

text \<open>
  C1, as the code has it: for every live save and every non-empty sequence of AddPlayer,
  RemovePlayer, AddGroup, RemoveGroup and SetUsedByMapState calls that runs to its end (no
  call is made on a save already unloaded), the save is unloaded at the end if and only if
  both reference lists are empty and usedByMap is false at the end. The check runs in every
  RemovePlayer and RemoveGroup, which return its result, and in every SetUsedByMapState(false);
  SetUsedByMapState(true) never unloads, and AddPlayer and AddGroup, which run no check,
  leave a save that is referenced.
\<close>
theorem unloaded_iff_unreferenced:
  "(run_calls (Live s) cs = Inr l \<and> cs \<noteq> [] \<longrightarrow>
      (is_unloaded l \<longleftrightarrow> unreferenced (binding_of l)))
   \<and> (fst (RemovePlayer p s) \<longleftrightarrow> unreferenced (binding_of (snd (RemovePlayer p s))))
   \<and> (fst (RemoveGroup g s) \<longleftrightarrow> unreferenced (binding_of (snd (RemoveGroup g s))))
   \<and> (is_unloaded (snd (RemovePlayer p s)) \<longleftrightarrow> fst (RemovePlayer p s))
   \<and> (is_unloaded (snd (RemoveGroup g s)) \<longleftrightarrow> fst (RemoveGroup g s))
   \<and> (is_unloaded (SetUsedByMapState False s) \<longleftrightarrow>
        unreferenced (binding_of (SetUsedByMapState False s)))
   \<and> \<not> is_unloaded (SetUsedByMapState True s)
   \<and> \<not> unreferenced (AddPlayer p s)
   \<and> \<not> unreferenced (AddGroup g s)"
proof -
  have "run_calls (Live s) cs = Inr l \<and> cs \<noteq> [] \<longrightarrow>
      (is_unloaded l \<longleftrightarrow> unreferenced (binding_of l))"
    using run_calls_unloaded_iff by blast
  moreover have "fst (RemovePlayer p s) \<longleftrightarrow> unreferenced (binding_of (snd (RemovePlayer p s)))"
    by (simp add: RemovePlayer_def UnloadIfEmpty_def unreferenced_def)
  moreover have "fst (RemoveGroup g s) \<longleftrightarrow> unreferenced (binding_of (snd (RemoveGroup g s)))"
    by (simp add: RemoveGroup_def UnloadIfEmpty_def unreferenced_def)
  moreover have "is_unloaded (snd (RemovePlayer p s)) \<longleftrightarrow> fst (RemovePlayer p s)"
    by (simp add: RemovePlayer_def UnloadIfEmpty_def)
  moreover have "is_unloaded (snd (RemoveGroup g s)) \<longleftrightarrow> fst (RemoveGroup g s)"
    by (simp add: RemoveGroup_def UnloadIfEmpty_def)
  moreover have "is_unloaded (SetUsedByMapState False s) \<longleftrightarrow>
        unreferenced (binding_of (SetUsedByMapState False s))"
    using do_call_unloaded_iff [of "CallSetUsedByMapState False" s] by simp
  moreover have "\<not> is_unloaded (SetUsedByMapState True s)"
    by (simp add: SetUsedByMapState_def Let_def)
  moreover have "\<not> unreferenced (AddPlayer p s)" "\<not> unreferenced (AddGroup g s)"
    by (simp_all add: unreferenced_def AddPlayer_def AddGroup_def)
  ultimately show ?thesis by simp
qed

text \<open>A run that binds a player, loads the map, unbinds the player and unloads the map.\<close>
theorem unloaded_iff_unreferenced_witness:
  "run_calls (Live fresh_save) [CallAddPlayer 1, CallSetUsedByMapState True, CallRemovePlayer 1,
       CallSetUsedByMapState False]
     = Inr (Unloaded fresh_save)
   \<and> unreferenced fresh_save"
  using unloaded_iff_unreferenced [of fresh_save "[CallAddPlayer 1, CallSetUsedByMapState True, CallRemovePlayer 1,
       CallSetUsedByMapState False]" "Unloaded fresh_save" 1 1]
  by (simp add: fresh_save_def InstanceSave_new_def AddPlayer_def RemovePlayer_def
      SetUsedByMapState_def UnloadIfEmpty_def unreferenced_def Let_def)

text \<open>
  C1 as stated fails for the empty sequence: a save that has nothing bound and no map loaded
  is not unloaded as long as no call runs the check.
\<close>
theorem unloaded_iff_unreferenced_counterexample:
  "run_calls (Live fresh_save) [] = Inr (Live fresh_save)
   \<and> unreferenced (binding_of (Live fresh_save))
   \<and> \<not> is_unloaded (Live fresh_save)"
  by (simp add: fresh_save_def InstanceSave_new_def unreferenced_def)

text \<open>
  C6, as the code has it: the reference collections are lists. AddPlayer and AddGroup append
  the handle whether or not it is present, so its number of occurrences grows by one and
  the other handles keep theirs; RemovePlayer and RemoveGroup erase every occurrence.
\<close>
theorem reference_lists_append:
  "m_playerList (AddPlayer p s) = m_playerList s @ [p]
   \<and> m_groupList (AddGroup g s) = m_groupList s @ [g]
   \<and> count_list (m_playerList (AddPlayer p s)) p' =
       count_list (m_playerList s) p' + (if p' = p then 1 else 0)
   \<and> count_list (m_groupList (AddGroup g s)) g' =
       count_list (m_groupList s) g' + (if g' = g then 1 else 0)
   \<and> count_list (m_playerList (binding_of (snd (RemovePlayer p s)))) p = 0
   \<and> count_list (m_groupList (binding_of (snd (RemoveGroup g s)))) g = 0"
  by (simp add: AddPlayer_def AddGroup_def RemovePlayer_def RemoveGroup_def UnloadIfEmpty_def)

text \<open>
  C6 as stated fails: adding a player (or a group) that is already bound leaves two
  occurrences of the handle in the list.
\<close>
theorem reference_lists_duplicates_counterexample:
  "count_list (m_playerList (AddPlayer 1 fresh_save)) 1 = 1
   \<and> count_list (m_playerList (AddPlayer 1 (AddPlayer 1 fresh_save))) 1 = 2
   \<and> \<not> distinct (m_playerList (AddPlayer 1 (AddPlayer 1 fresh_save)))
   \<and> count_list (m_groupList (AddGroup 1 (AddGroup 1 fresh_save))) 1 = 2"
  by (simp add: AddPlayer_def AddGroup_def fresh_save_def InstanceSave_new_def)

text \<open>
  C7, as the code has it: RemovePlayer (RemoveGroup) of a handle that is not in the list
  leaves every field as it was and is exactly the emptiness check on the unchanged save, so
  the save is unloaded by the call if and only if it already had both lists empty and
  usedByMap false.
\<close>
theorem remove_absent_runs_check:
  "(p \<notin> set (m_playerList s) \<longrightarrow>
      RemovePlayer p s = UnloadIfEmpty s
      \<and> binding_of (snd (RemovePlayer p s)) = s
      \<and> (is_unloaded (snd (RemovePlayer p s)) \<longleftrightarrow> unreferenced s))
   \<and> (g \<notin> set (m_groupList s) \<longrightarrow>
      RemoveGroup g s = UnloadIfEmpty s
      \<and> binding_of (snd (RemoveGroup g s)) = s
      \<and> (is_unloaded (snd (RemoveGroup g s)) \<longleftrightarrow> unreferenced s))"
  by (simp add: RemovePlayer_def RemoveGroup_def UnloadIfEmpty_def unreferenced_def)

text \<open>Removing a player and a group that are not bound from a save with one player.\<close>
theorem remove_absent_runs_check_witness:
  "2 \<notin> set (m_playerList (AddPlayer 1 fresh_save))
   \<and> RemovePlayer 2 (AddPlayer 1 fresh_save) = (False, Live (AddPlayer 1 fresh_save))
   \<and> 2 \<notin> set (m_groupList (AddPlayer 1 fresh_save))
   \<and> RemoveGroup 2 (AddPlayer 1 fresh_save) = (False, Live (AddPlayer 1 fresh_save))"
  using remove_absent_runs_check [of 2 "AddPlayer 1 fresh_save" 2]
  by (simp add: AddPlayer_def fresh_save_def InstanceSave_new_def UnloadIfEmpty_def)

text \<open>
  C7 as stated fails: on a save with nothing bound and no map loaded, removing a player
  (or a group) that is not bound unloads the save.
\<close>
theorem remove_absent_counterexample:
  "1 \<notin> set (m_playerList fresh_save)
   \<and> is_unloaded (snd (RemovePlayer 1 fresh_save))
   \<and> 1 \<notin> set (m_groupList fresh_save)
   \<and> is_unloaded (snd (RemoveGroup 1 fresh_save))"
  by (simp add: RemovePlayer_def RemoveGroup_def UnloadIfEmpty_def fresh_save_def InstanceSave_new_def)

subsection \<open>Reset events and counts\<close>

text \<open>
  C4: two reset events compare equal exactly when their map id, difficulty and instance id
  agree; the type field plays no part, so events that differ only in their type are equal.
\<close>
theorem event_eq_identity_fields:
  "(event_eq a b \<longleftrightarrow> mapid a = mapid b \<and> difficulty a = difficulty b \<and> instanceId a = instanceId b)
   \<and> event_eq (a\<lparr>type := ty\<rparr>) (a\<lparr>type := ty'\<rparr>)"
  by (auto simp: event_eq_def)

text \<open>
  C10: the player and group counts are the list sizes reduced modulo 256, so a list of more
  than 255 entries is reported with a count different from its size.
\<close>
theorem count_truncated_to_uint8:
  "unat (GetPlayerCount s) = length (m_playerList s) mod 256
   \<and> unat (GetGroupCount s) = length (m_groupList s) mod 256
   \<and> (255 < length (m_playerList s) \<longrightarrow> unat (GetPlayerCount s) \<noteq> length (m_playerList s))
   \<and> (255 < length (m_groupList s) \<longrightarrow> unat (GetGroupCount s) \<noteq> length (m_groupList s))"
proof -
  have p: "unat (GetPlayerCount s) = length (m_playerList s) mod 256"
    by (simp add: GetPlayerCount_def unat_of_nat)
  have g: "unat (GetGroupCount s) = length (m_groupList s) mod 256"
    by (simp add: GetGroupCount_def unat_of_nat)
  have lt: "n mod 256 < 256" for n :: nat
    by simp
  have "255 < n \<Longrightarrow> n mod 256 \<noteq> n" for n :: nat
    using lt [of n] by arith
  with p g show ?thesis
    by simp
qed

text \<open>A list of 256 players is counted as 0, one of 300 groups as 44.\<close>
theorem count_truncated_to_uint8_witness:
  "255 < length (m_playerList crowded_save) \<and> unat (GetPlayerCount crowded_save) = 0
   \<and> 255 < length (m_groupList crowded_save) \<and> unat (GetGroupCount crowded_save) = 44"
  using count_truncated_to_uint8 [of crowded_save]
  by (simp add: crowded_save_def)

subsection \<open>The reset-time table\<close>

text \<open>
  C8: when the table has no entry for the key of a map and difficulty, GetResetTimeFor
  returns 0; the call leaves the scheduler as it was, for every map and difficulty; and
  after SetResetTimeFor has stored \<open>t\<close> for a map and difficulty, GetResetTimeFor returns \<open>t\<close>
  for them.
\<close>
theorem reset_time_lookup:
  "(m_resetTimeByMapDifficulty s (pair32 m d) = None \<longrightarrow> fst (GetResetTimeFor pair32 m d s) = 0)
   \<and> snd (GetResetTimeFor pair32 m d s) = s
   \<and> fst (GetResetTimeFor pair32 m d (SetResetTimeFor pair32 m d t s)) = t"
  by (simp add: GetResetTimeFor_def SetResetTimeFor_def split: option.split)

text \<open>Map 249 at normal difficulty has no entry; 77 is stored for it and read back.\<close>
theorem reset_time_lookup_witness:
  "m_resetTimeByMapDifficulty sched0 (example_pair32 249 0) = None
   \<and> GetResetTimeFor example_pair32 249 0 sched0 = (0, sched0)
   \<and> fst (GetResetTimeFor example_pair32 249 0 (SetResetTimeFor example_pair32 249 0 77 sched0)) = 77"
  using reset_time_lookup [of sched0 example_pair32 249 0 77]
  by (simp add: sched0_def example_pair32_def prod_eq_iff)

text \<open>
  C9: SetResetTimeFor stores \<open>t\<close> under the key of the map and difficulty and changes
  nothing else: the event queue is the same, every other key of the table keeps its entry,
  and GetResetTimeFor gives the same result as before for every map and difficulty with
  another key.
\<close>
theorem SetResetTimeFor_frame:
  "m_resetTimeQueue (SetResetTimeFor pair32 m d t s) = m_resetTimeQueue s
   \<and> m_resetTimeByMapDifficulty (SetResetTimeFor pair32 m d t s) (pair32 m d) = Some t
   \<and> (\<forall>k. k \<noteq> pair32 m d \<longrightarrow>
         m_resetTimeByMapDifficulty (SetResetTimeFor pair32 m d t s) k =
         m_resetTimeByMapDifficulty s k)
   \<and> (\<forall>m' d'. pair32 m' d' \<noteq> pair32 m d \<longrightarrow>
         fst (GetResetTimeFor pair32 m' d' (SetResetTimeFor pair32 m d t s)) =
         fst (GetResetTimeFor pair32 m' d' s))"
  by (simp add: GetResetTimeFor_def SetResetTimeFor_def split: option.split)

text \<open>Storing 77 for map 249 leaves the entry of map 531 and the queue as they were.\<close>
theorem SetResetTimeFor_frame_witness:
  "example_pair32 531 2 \<noteq> example_pair32 249 0
   \<and> m_resetTimeByMapDifficulty (SetResetTimeFor example_pair32 249 0 77 sched0) (example_pair32 531 2) = Some 1000
   \<and> fst (GetResetTimeFor example_pair32 531 2 (SetResetTimeFor example_pair32 249 0 77 sched0)) = 1000
   \<and> m_resetTimeQueue (SetResetTimeFor example_pair32 249 0 77 sched0) = [(400, ev_dungeon), (1000, ev_final)]"
  using SetResetTimeFor_frame [of example_pair32 249 0 77 sched0]
  by (simp add: sched0_def example_pair32_def GetResetTimeFor_def)

subsection \<open>The event queue\<close>

lemma mset_queue_insert: "mset (queue_insert t e q) = add_mset (t, e) (mset q)"
  by (induction q) auto

lemma set_queue_insert: "set (queue_insert t e q) = insert (t, e) (set q)"
  using mset_queue_insert [of t e q, THEN arg_cong, of set_mset] by simp

lemma sorted_queue_insert:
  "sorted (map fst q) \<Longrightarrow> sorted (map fst (queue_insert t e q))"
proof (induction q)
  case Nil
  then show ?case by simp
next
  case (Cons a q)
  obtain k x where a: "a = (k, x)" by (cases a)
  show ?case
  proof (cases "k \<le> t")
    case True
    with Cons a show ?thesis by (auto simp: set_queue_insert)
  next
    case False
    with Cons.prems a have "\<forall>y \<in> set q. t \<le> fst y" by fastforce
    with False Cons.prems a show ?thesis by simp
  qed
qed





lemma event_eq_refl: "event_eq e e"
  by (simp add: event_eq_def)

lemma queue_insert_mem: "(t, e) \<in> set (queue_insert t e q)"
  by (induction q) auto

lemma length_queue_insert: "length (queue_insert t e q) = Suc (length q)"
  by (induction q) auto

lemma queue_erase_first_split:
  "\<exists>y \<in> set q. event_eq (snd y) e \<Longrightarrow>
     \<exists>pre k x post. q = pre @ (k, x) # post \<and> queue_erase_first e q = pre @ post
       \<and> event_eq x e \<and> (\<forall>y \<in> set pre. \<not> event_eq (snd y) e)"
proof (induction q)
  case Nil
  then show ?case by simp
next
  case (Cons a q)
  obtain k x where a: "a = (k, x)" by (cases a)
  show ?case
  proof (cases "event_eq x e")
    case True
    then have "a # q = [] @ (k, x) # q \<and> queue_erase_first e (a # q) = [] @ q
        \<and> event_eq x e \<and> (\<forall>y \<in> set []. \<not> event_eq (snd y) e)"
      by (simp add: a)
    then show ?thesis by blast
  next
    case False
    with Cons.prems a have "\<exists>y \<in> set q. event_eq (snd y) e" by auto
    from Cons.IH [OF this] obtain pre k' x' post where
      q: "q = pre @ (k', x') # post" and er: "queue_erase_first e q = pre @ post"
      and eq: "event_eq x' e" and pre: "\<forall>y \<in> set pre. \<not> event_eq (snd y) e"
      by blast
    from q er eq pre False a have "a # q = (a # pre) @ (k', x') # post
        \<and> queue_erase_first e (a # q) = (a # pre) @ post
        \<and> event_eq x' e \<and> (\<forall>y \<in> set (a # pre). \<not> event_eq (snd y) e)"
      by simp
    then show ?thesis by blast
  qed
qed

lemma sorted_queue_erase_first:
  "sorted (map fst q) \<Longrightarrow> sorted (map fst (queue_erase_first e q))"
proof (induction q)
  case Nil
  then show ?case by simp
next
  case (Cons a q)
  obtain k x where a: "a = (k, x)" by (cases a)
  have "set (queue_erase_first e q) \<subseteq> set q" for q
    by (induction q) (auto split: if_splits)
  with Cons a show ?case by auto
qed

lemma queue_ordered_ScheduleReset:
  "queue_ordered (m_resetTimeQueue s) \<Longrightarrow>
     queue_ordered (m_resetTimeQueue (ScheduleReset add t e s))"
  by (simp add: queue_ordered_def ScheduleReset_def sorted_queue_insert sorted_queue_erase_first)

text \<open>
  C3: after ScheduleReset(true, t, e), a call ScheduleReset(false, t', e) removes exactly one
  entry of the queue, the first one whose event compares equal to \<open>e\<close>; the entries before
  and behind it stay as they are and in their order, so the queue is as long as before the
  two calls; the table is untouched, and the result is the same for every time \<open>t'\<close> passed
  to the removing call.
\<close>
theorem schedule_then_cancel:
  "\<exists>pre k x post.
      m_resetTimeQueue (ScheduleReset True t e s) = pre @ (k, x) # post
    \<and> m_resetTimeQueue (ScheduleReset False t' e (ScheduleReset True t e s)) = pre @ post
    \<and> event_eq x e
    \<and> (\<forall>y \<in> set pre. \<not> event_eq (snd y) e)
    \<and> length (m_resetTimeQueue (ScheduleReset False t' e (ScheduleReset True t e s))) =
        length (m_resetTimeQueue s)
    \<and> m_resetTimeByMapDifficulty (ScheduleReset False t' e (ScheduleReset True t e s)) =
        m_resetTimeByMapDifficulty s
    \<and> ScheduleReset False t'' e (ScheduleReset True t e s) =
        ScheduleReset False t' e (ScheduleReset True t e s)"
proof -
  let ?q1 = "queue_insert t e (m_resetTimeQueue s)"
  have "\<exists>y \<in> set ?q1. event_eq (snd y) e"
    using queue_insert_mem [of t e "m_resetTimeQueue s"] event_eq_refl [of e] by force
  from queue_erase_first_split [OF this] obtain pre k x post where
    split: "?q1 = pre @ (k, x) # post" "queue_erase_first e ?q1 = pre @ post"
    "event_eq x e" "\<forall>y \<in> set pre. \<not> event_eq (snd y) e"
    by blast
  from split(1) have "Suc (length (pre @ post)) = Suc (length (m_resetTimeQueue s))"
    using length_queue_insert [of t e "m_resetTimeQueue s"] by simp
  with split have "m_resetTimeQueue (ScheduleReset True t e s) = pre @ (k, x) # post
    \<and> m_resetTimeQueue (ScheduleReset False t' e (ScheduleReset True t e s)) = pre @ post
    \<and> event_eq x e
    \<and> (\<forall>y \<in> set pre. \<not> event_eq (snd y) e)
    \<and> length (m_resetTimeQueue (ScheduleReset False t' e (ScheduleReset True t e s))) =
        length (m_resetTimeQueue s)
    \<and> m_resetTimeByMapDifficulty (ScheduleReset False t' e (ScheduleReset True t e s)) =
        m_resetTimeByMapDifficulty s
    \<and> ScheduleReset False t'' e (ScheduleReset True t e s) =
        ScheduleReset False t' e (ScheduleReset True t e s)"
    by (simp add: ScheduleReset_def)
  then show ?thesis by blast
qed

text \<open>
  The cohort's reset is queued at 1000. A warning for the same cohort is added at 1500 and
  cancelled again: the entry removed is the reset at 1000, which has the same identity
  fields and comes first, and the warning stays.
\<close>
theorem schedule_then_cancel_witness:
  "m_resetTimeQueue (ScheduleReset True 1500 ev_warn sched0) =
      [(400, ev_dungeon)] @ (1000, ev_final) # [(1500, ev_warn)]
   \<and> event_eq ev_final ev_warn \<and> \<not> event_eq ev_dungeon ev_warn
   \<and> m_resetTimeQueue (ScheduleReset False 1500 ev_warn (ScheduleReset True 1500 ev_warn sched0)) =
      [(400, ev_dungeon)] @ [(1500, ev_warn)]
   \<and> ScheduleReset False 0 ev_warn (ScheduleReset True 1500 ev_warn sched0) =
      ScheduleReset False 1500 ev_warn (ScheduleReset True 1500 ev_warn sched0)"
  using schedule_then_cancel [of 1500 ev_warn sched0 1500 0]
  by (simp add: ScheduleReset_def sched0_def event_eq_def ev_warn_def ev_final_def ev_dungeon_def
      InstanceResetEvent_new_def)

subsection \<open>Update\<close>













subsection \<open>AddInstanceSave\<close>

text \<open>
  C5: when the manager has a save for the instance id, AddInstanceSave returns that save
  and leaves the manager as it was: no second entry, nothing written to the database and
  nothing scheduled. For a fresh instance id it builds the save and inserts it, and writes
  it to the database and schedules the reset of a dungeon only when it is not loading.
  A second call with the same instance id, whatever its other arguments, returns the save
  of the first call and the manager as the first call left it.
\<close>
theorem AddInstanceSave_idempotent:
  "(m_instanceSaveById mgr i = Some save \<longrightarrow>
      AddInstanceSave dg m i d rt cr load mgr = (save, mgr))
   \<and> (m_instanceSaveById mgr i = None \<longrightarrow>
      fst (AddInstanceSave dg m i d rt cr load mgr) = InstanceSave_new (ucast m) i d rt cr
      \<and> m_instanceSaveById (snd (AddInstanceSave dg m i d rt cr load mgr)) =
          (m_instanceSaveById mgr)(i \<mapsto> InstanceSave_new (ucast m) i d rt cr)
      \<and> saved_to_db (snd (AddInstanceSave dg m i d rt cr load mgr)) =
          (if load then saved_to_db mgr
           else saved_to_db mgr @ [InstanceSave_new (ucast m) i d rt cr])
      \<and> m_Scheduler (snd (AddInstanceSave dg m i d rt cr load mgr)) =
          (if \<not> load \<and> dg m d
           then ScheduleReset True rt (InstanceResetEvent_new RESET_EVENT_DUNGEON m d i)
                  (m_Scheduler mgr)
           else m_Scheduler mgr))
   \<and> AddInstanceSave dg' m' i d' rt' cr' load' (snd (AddInstanceSave dg m i d rt cr load mgr)) =
       AddInstanceSave dg m i d rt cr load mgr"
proof -
  have present: "m_instanceSaveById mgr i = Some save \<longrightarrow>
      AddInstanceSave dg m i d rt cr load mgr = (save, mgr)"
    by (simp add: AddInstanceSave_def)
  have fresh: "m_instanceSaveById mgr i = None \<longrightarrow>
      fst (AddInstanceSave dg m i d rt cr load mgr) = InstanceSave_new (ucast m) i d rt cr
      \<and> m_instanceSaveById (snd (AddInstanceSave dg m i d rt cr load mgr)) =
          (m_instanceSaveById mgr)(i \<mapsto> InstanceSave_new (ucast m) i d rt cr)
      \<and> saved_to_db (snd (AddInstanceSave dg m i d rt cr load mgr)) =
          (if load then saved_to_db mgr
           else saved_to_db mgr @ [InstanceSave_new (ucast m) i d rt cr])
      \<and> m_Scheduler (snd (AddInstanceSave dg m i d rt cr load mgr)) =
          (if \<not> load \<and> dg m d
           then ScheduleReset True rt (InstanceResetEvent_new RESET_EVENT_DUNGEON m d i)
                  (m_Scheduler mgr)
           else m_Scheduler mgr)"
    by (simp add: AddInstanceSave_def Let_def)
  have stored: "m_instanceSaveById (snd (AddInstanceSave dg m i d rt cr load mgr)) i =
      Some (fst (AddInstanceSave dg m i d rt cr load mgr))"
    by (simp add: AddInstanceSave_def Let_def split: option.split)
  have again: "AddInstanceSave dg' m' i d' rt' cr' load' (snd (AddInstanceSave dg m i d rt cr load mgr)) =
       AddInstanceSave dg m i d rt cr load mgr"
    using stored by (simp add: AddInstanceSave_def [of dg' m' i d' rt' cr' load'])
  from present fresh again show ?thesis by blast
qed

text \<open>
  Instance 7 of map 249 is added while loading, and then again with other arguments: the
  second call returns the save of the first and changes nothing. Added when not loading,
  the save is written to the database and its reset is scheduled.
\<close>
theorem AddInstanceSave_idempotent_witness:
  "m_instanceSaveById mgr0 7 = None
   \<and> AddInstanceSave dungeon_249 249 7 DUNGEON_DIFFICULTY_NORMAL 0 True True mgr0 =
       (fresh_save, mgr0\<lparr>m_instanceSaveById := [7 \<mapsto> fresh_save]\<rparr>)
   \<and> m_instanceSaveById (mgr0\<lparr>m_instanceSaveById := [7 \<mapsto> fresh_save]\<rparr>) 7 = Some fresh_save
   \<and> AddInstanceSave dungeon_249 531 7 2 99 False False
         (mgr0\<lparr>m_instanceSaveById := [7 \<mapsto> fresh_save]\<rparr>) =
       (fresh_save, mgr0\<lparr>m_instanceSaveById := [7 \<mapsto> fresh_save]\<rparr>)
   \<and> saved_to_db (snd (AddInstanceSave dungeon_249 249 7 DUNGEON_DIFFICULTY_NORMAL 0 True False mgr0))
       = [fresh_save]
   \<and> m_resetTimeQueue (m_Scheduler
        (snd (AddInstanceSave dungeon_249 249 7 DUNGEON_DIFFICULTY_NORMAL 0 True False mgr0)))
       = [(0, ev_dungeon), (400, ev_dungeon), (1000, ev_final)]"
proof -
  have none: "m_instanceSaveById mgr0 7 = None"
    by (simp add: mgr0_def)
  have some: "m_instanceSaveById (mgr0\<lparr>m_instanceSaveById := [7 \<mapsto> fresh_save]\<rparr>) 7 = Some fresh_save"
    by simp
  have first: "AddInstanceSave dungeon_249 249 7 DUNGEON_DIFFICULTY_NORMAL 0 True True mgr0 =
       (fresh_save, mgr0\<lparr>m_instanceSaveById := [7 \<mapsto> fresh_save]\<rparr>)"
    by (simp add: AddInstanceSave_def Let_def fresh_save_def mgr0_def)
  from none
    AddInstanceSave_idempotent [of mgr0 7 fresh_save dungeon_249 249 DUNGEON_DIFFICULTY_NORMAL
      0 True False dungeon_249 531 2 99 False False]
  have "saved_to_db (snd (AddInstanceSave dungeon_249 249 7 DUNGEON_DIFFICULTY_NORMAL 0 True False mgr0))
       = saved_to_db mgr0 @ [InstanceSave_new (ucast (249 :: uint32)) 7 DUNGEON_DIFFICULTY_NORMAL 0 True]
     \<and> m_Scheduler (snd (AddInstanceSave dungeon_249 249 7 DUNGEON_DIFFICULTY_NORMAL 0 True False mgr0))
       = (if dungeon_249 249 DUNGEON_DIFFICULTY_NORMAL
          then ScheduleReset True 0
                 (InstanceResetEvent_new RESET_EVENT_DUNGEON 249 DUNGEON_DIFFICULTY_NORMAL 7)
                 (m_Scheduler mgr0)
          else m_Scheduler mgr0)"
    by simp
  then have db: "saved_to_db (snd (AddInstanceSave dungeon_249 249 7 DUNGEON_DIFFICULTY_NORMAL 0 True False mgr0))
       = [fresh_save]
     \<and> m_resetTimeQueue (m_Scheduler
        (snd (AddInstanceSave dungeon_249 249 7 DUNGEON_DIFFICULTY_NORMAL 0 True False mgr0)))
       = [(0, ev_dungeon), (400, ev_dungeon), (1000, ev_final)]"
    by (simp add: fresh_save_def mgr0_def dungeon_249_def ScheduleReset_def sched0_def
        ev_dungeon_def DUNGEON_DIFFICULTY_NORMAL_def InstanceResetEvent_new_def)
  from some
    AddInstanceSave_idempotent [of "mgr0\<lparr>m_instanceSaveById := [7 \<mapsto> fresh_save]\<rparr>" 7 fresh_save
      dungeon_249 531 2 99 False False dungeon_249 531 2 99 False False]
  have second: "AddInstanceSave dungeon_249 531 7 2 99 False False
         (mgr0\<lparr>m_instanceSaveById := [7 \<mapsto> fresh_save]\<rparr>) =
       (fresh_save, mgr0\<lparr>m_instanceSaveById := [7 \<mapsto> fresh_save]\<rparr>)"
    by blast
  from none some first second db show ?thesis
    by blast
qed

end
